theory Spec2Isabelle
  imports Complex_Main
begin

section \<open>Module constants of APSC181liftsim.py\<close>

text \<open>
  Python floats are modelled as the real numbers throughout: every arithmetic
  operation of the source is read as the exact operation on \<open>real\<close>, and
  \<open>math.sin\<close>, \<open>math.cos\<close>, \<open>math.atan\<close>, \<open>math.sqrt\<close> and \<open>math.pi\<close> as
  \<open>sin\<close>, \<open>cos\<close>, \<open>arctan\<close>, \<open>sqrt\<close> and \<open>pi\<close>. Rounding is not modelled.
\<close>

definition AIRFOIL_LENGTH :: real where
  "AIRFOIL_LENGTH = 5.0"

definition AIRFOIL_WIDTH :: real where
  "AIRFOIL_WIDTH = 2"

definition AIRFOIL_THICKNESS :: real where
  "AIRFOIL_THICKNESS = 0.5"

definition AIR_DENSITY :: real where
  "AIR_DENSITY = 1.225"

definition REFERENCE_AREA :: real where
  "REFERENCE_AREA = AIRFOIL_LENGTH * AIRFOIL_WIDTH"

definition thickness_ratio :: real where
  "thickness_ratio = 0.12"

definition camber_ratio :: real where
  "camber_ratio = 0.04"

definition camber_position :: real where
  "camber_position = 0.4"

definition n_points :: nat where
  "n_points = 20"

definition MAX_PARTICLES :: nat where
  "MAX_PARTICLES = 1000"

text \<open>\<open>math.radians\<close>.\<close>

definition radians :: "real \<Rightarrow> real" where
  "radians d = d * pi / 180"

section \<open>Data model\<close>

text \<open>
  An instance of class \<open>SimpleParticle\<close>. The position fields \<open>x\<close>, \<open>y\<close>, \<open>z\<close>
  of the source are named \<open>p_x\<close>, \<open>p_y\<close>, \<open>p_z\<close> here, so that the short names
  stay available as variables.
\<close>

record SimpleParticle =
  p_x :: real
  p_y :: real
  p_z :: real
  speed :: real
  lifetime :: real
  max_lifetime :: real
  color :: "real \<times> real \<times> real \<times> real"
  deflected :: bool
  deflection_strength :: real

text \<open>
  The module-level variables that the functions below read and assign with
  \<open>global\<close>, and the list \<open>particles\<close> that they mutate in place.
\<close>

record sim_state =
  airfoil_angle :: real
  flow_velocity :: real
  camera_rotation_x :: real
  camera_rotation_y :: real
  camera_distance :: real
  LIFT_COEFFICIENT :: real
  DRAG_COEFFICIENT :: real
  particles :: "SimpleParticle list"

text \<open>The values the module assigns at import time.\<close>

definition initial_state :: sim_state where
  "initial_state =
     \<lparr> airfoil_angle = 0.0, flow_velocity = 2.0,
       camera_rotation_x = 10, camera_rotation_y = 45, camera_distance = 15.0,
       LIFT_COEFFICIENT = 0.0, DRAG_COEFFICIENT = 0.02,
       particles = [] \<rparr>"

section \<open>Force model: \<open>calculate_forces\<close>\<close>

text \<open>
  The local \<open>stall_factor\<close> of \<open>calculate_forces\<close>, as a function of the angle
  it is computed from.
\<close>

definition stall_factor :: "real \<Rightarrow> real" where
  "stall_factor angle = max 0 (1 - (\<bar>angle\<bar> - 15) / 5)"

text \<open>
  \<open>calculate_forces\<close> reads \<open>airfoil_angle\<close> and \<open>flow_velocity\<close>, assigns the
  globals \<open>LIFT_COEFFICIENT\<close> and \<open>DRAG_COEFFICIENT\<close>, and returns the pair
  \<open>(lift_force, drag_force)\<close>. The model returns that pair with the updated state.
\<close>

definition calculate_forces :: "sim_state \<Rightarrow> (real \<times> real) \<times> sim_state" where
  "calculate_forces s =
     (let alpha = radians (airfoil_angle s);
          lc = (if \<bar>airfoil_angle s\<bar> < 15
                then 2.0 * pi * sin alpha * (1 - 0.3 * (sin alpha)\<^sup>2)
                else 2.0 * pi * sin alpha * stall_factor (airfoil_angle s)
                       * (1 - 0.3 * (sin alpha)\<^sup>2));
          dc0 = 0.015 + lc\<^sup>2 / (pi * 2.5);
          dc = (if \<bar>airfoil_angle s\<bar> > 15
                then dc0 + 0.05 * (\<bar>airfoil_angle s\<bar> - 15)
                else dc0);
          dynamic_pressure = 0.5 * AIR_DENSITY * (flow_velocity s)\<^sup>2;
          lift_force = lc * dynamic_pressure * REFERENCE_AREA;
          drag_force = dc * dynamic_pressure * REFERENCE_AREA
      in ((lift_force, drag_force),
          s\<lparr> LIFT_COEFFICIENT := lc, DRAG_COEFFICIENT := dc \<rparr>))"

text \<open>The four outputs of one call, read off the result.\<close>

definition lift_coeff_of :: "sim_state \<Rightarrow> real" where
  "lift_coeff_of s = LIFT_COEFFICIENT (snd (calculate_forces s))"

definition drag_coeff_of :: "sim_state \<Rightarrow> real" where
  "drag_coeff_of s = DRAG_COEFFICIENT (snd (calculate_forces s))"

definition lift_force_of :: "sim_state \<Rightarrow> real" where
  "lift_force_of s = fst (fst (calculate_forces s))"

definition drag_force_of :: "sim_state \<Rightarrow> real" where
  "drag_force_of s = snd (fst (calculate_forces s))"

text \<open>
  The force model in the words of the specification: the tuple
  \<open>(liftCoeff, dragCoeff, liftForce, dragForce)\<close> for an angle \<open>a\<close> in degrees and a
  flow velocity \<open>v\<close>. It is compared with \<open>calculate_forces\<close> below.
\<close>

definition spec_compute :: "real \<Rightarrow> real \<Rightarrow> real \<times> real \<times> real \<times> real" where
  "spec_compute a v =
     (let q = 0.5 * 1.225 * v\<^sup>2;
          A = 5.0 * 2.0;
          alpha = a * pi / 180;
          Cl = (if \<bar>a\<bar> < 15
                then 2 * pi * sin alpha * (1 - 0.3 * (sin alpha)\<^sup>2)
                else 2 * pi * sin alpha * (1 - 0.3 * (sin alpha)\<^sup>2)
                       * max 0 (1 - (\<bar>a\<bar> - 15) / 5));
          Cd = 0.015 + Cl\<^sup>2 / (pi * 2.5)
                 + (if \<bar>a\<bar> > 15 then 0.05 * (\<bar>a\<bar> - 15) else 0)
      in (Cl, Cd, Cl * q * A, Cd * q * A))"

section \<open>Particles: \<open>SimpleParticle\<close>, \<open>generate_particles\<close>, \<open>update_particles\<close>\<close>

text \<open>
  \<open>random.uniform(a, b)\<close> returns \<open>a + (b - a) * random()\<close>. The four values of
  \<open>random()\<close> that one constructor call consumes are an input of the model.
\<close>

definition uniform :: "real \<Rightarrow> real \<Rightarrow> real \<Rightarrow> real" where
  "uniform a b u = a + (b - a) * u"

record particle_draws =
  r_x :: real
  r_y :: real
  r_z :: real
  r_lifetime :: real

text \<open>\<open>SimpleParticle.__init__\<close>; it reads the global \<open>flow_velocity\<close>.\<close>

definition SimpleParticle_init :: "real \<Rightarrow> particle_draws \<Rightarrow> SimpleParticle" where
  "SimpleParticle_init flow_vel d =
     \<lparr> p_x = uniform (-10) (-5) (r_x d),
       p_y = uniform (-2) 2 (r_y d),
       p_z = uniform (- AIRFOIL_WIDTH / 2) (AIRFOIL_WIDTH / 2) (r_z d),
       speed = flow_vel,
       lifetime = uniform 150 250 (r_lifetime d),
       max_lifetime = uniform 150 250 (r_lifetime d),
       color = (0.5, 0.5, 0.5, 1.0),
       deflected = False,
       deflection_strength = 0 \<rparr>"

text \<open>\<open>SimpleParticle.update\<close>; it reads the global \<open>airfoil_angle\<close>.\<close>

definition SimpleParticle_update :: "real \<Rightarrow> SimpleParticle \<Rightarrow> SimpleParticle" where
  "SimpleParticle_update angle p =
     (let p1 = p\<lparr> p_x := p_x p + speed p * 0.05 \<rparr>;
          p2 = (if \<not> deflected p1 \<and> -2 \<le> p_x p1 \<and> p_x p1 \<le> 3 then
                  (let angle_rad = radians angle;
                       rel_x = p_x p1 * cos angle_rad + p_y p1 * sin angle_rad;
                       rel_y = - p_x p1 * sin angle_rad + p_y p1 * cos angle_rad
                   in if - AIRFOIL_LENGTH / 2 \<le> rel_x \<and> rel_x \<le> AIRFOIL_LENGTH / 2
                           \<and> \<bar>rel_y\<bar> \<le> AIRFOIL_THICKNESS * 2 then
                        (let direction = (if rel_y > 0 then -1 else 1);
                             distance_factor = 1 - min 1 (\<bar>rel_y\<bar> / (AIRFOIL_THICKNESS * 2));
                             angle_factor = \<bar>sin (radians angle)\<bar> * 1.5 + 0.5
                         in p1\<lparr> deflection_strength :=
                                   direction * distance_factor * angle_factor * 0.1,
                                 deflected := True,
                                 color := (1.0, 0.0, 0.7, 0.7) \<rparr>)
                      else p1)
                else p1);
          p3 = (if deflected p2
                then p2\<lparr> p_y := p_y p2 + deflection_strength p2,
                         deflection_strength := deflection_strength p2 * 0.9995 \<rparr>
                else p2)
      in p3\<lparr> lifetime := lifetime p3 - 1.0 \<rparr>)"

text \<open>One particle over successive ticks, the airfoil angle of each tick given.\<close>

fun run_updates :: "real list \<Rightarrow> SimpleParticle \<Rightarrow> SimpleParticle" where
  "run_updates [] p = p"
| "run_updates (angle # angles) p = run_updates angles (SimpleParticle_update angle p)"

text \<open>
  \<open>generate_particles\<close>: when the pool is below \<open>MAX_PARTICLES\<close>, the loop over
  \<open>range(3)\<close> appends three new particles; \<open>rnd k\<close> holds the random values drawn
  by the \<open>k\<close>-th constructor call.
\<close>

definition generate_particles :: "(nat \<Rightarrow> particle_draws) \<Rightarrow> sim_state \<Rightarrow> sim_state" where
  "generate_particles rnd s =
     (if length (particles s) < MAX_PARTICLES
      then s\<lparr> particles := particles s
                 @ map (\<lambda>k. SimpleParticle_init (flow_velocity s) (rnd k)) [0..<3] \<rparr>
      else s)"

text \<open>The removal test of \<open>update_particles\<close>.\<close>

definition particle_dead :: "SimpleParticle \<Rightarrow> bool" where
  "particle_dead p \<longleftrightarrow>
     lifetime p \<le> 0 \<or> p_x p > 15 \<or> \<bar>p_y p\<bar> > 10 \<or> \<bar>p_z p\<bar> > 10"

text \<open>
  \<open>update_particles\<close> iterates over the copy \<open>particles[:]\<close>, updates each particle
  and removes it from the pool when the test holds. The objects of the pool are
  distinct and \<open>SimpleParticle\<close> defines no equality, so \<open>particles.remove(particle)\<close>
  removes exactly the particle at hand: the survivors keep their order.
\<close>

fun update_loop :: "real \<Rightarrow> SimpleParticle list \<Rightarrow> SimpleParticle list" where
  "update_loop angle [] = []"
| "update_loop angle (p # ps) =
     (let p' = SimpleParticle_update angle p
      in if particle_dead p' then update_loop angle ps else p' # update_loop angle ps)"

definition update_particles :: "sim_state \<Rightarrow> sim_state" where
  "update_particles s = s\<lparr> particles := update_loop (airfoil_angle s) (particles s) \<rparr>"

section \<open>Input handling: \<open>handle_events\<close>\<close>

datatype key =
  K_r | K_UP | K_DOWN | K_RIGHT | K_LEFT | K_w | K_s | K_a | K_d | K_q | K_e | K_other

datatype event = QUIT | KEYDOWN key | OTHER_EVENT

text \<open>\<open>sys.exit()\<close> ends the process; it is the only way out of the main loop.\<close>

datatype exit = SystemExit

text \<open>The \<open>%\<close> of Python on floats, for a positive modulus.\<close>

definition py_fmod :: "real \<Rightarrow> real \<Rightarrow> real" where
  "py_fmod a m = a - m * of_int \<lfloor>a / m\<rfloor>"

text \<open>The assignments under \<open>if event.key == K_r\<close>.\<close>

definition reset :: "sim_state \<Rightarrow> sim_state" where
  "reset s = s\<lparr> airfoil_angle := 0, flow_velocity := 10.0,
                camera_rotation_x := 30.0, camera_rotation_y := 45.0,
                camera_distance := 10.0 \<rparr>"

text \<open>The loop over \<open>pygame.event.get()\<close>.\<close>

fun event_loop :: "event list \<Rightarrow> sim_state \<Rightarrow> exit + sim_state" where
  "event_loop [] s = Inr s"
| "event_loop (QUIT # es) s = Inl SystemExit"
| "event_loop (KEYDOWN k # es) s = event_loop es (if k = K_r then reset s else s)"
| "event_loop (OTHER_EVENT # es) s = event_loop es s"

text \<open>
  The part of \<open>handle_events\<close> after the event loop: the state of each key, as
  \<open>pygame.key.get_pressed()\<close> reports it, is tested in the order of the source.
\<close>

definition apply_keys :: "(key \<Rightarrow> bool) \<Rightarrow> sim_state \<Rightarrow> sim_state" where
  "apply_keys keys s =
     (let s1 = (if keys K_UP
                then s\<lparr> airfoil_angle := min (airfoil_angle s + 0.5) 25.0 \<rparr> else s);
          s2 = (if keys K_DOWN
                then s1\<lparr> airfoil_angle := max (airfoil_angle s1 - 0.5) (-25.0) \<rparr> else s1);
          s3 = (if keys K_RIGHT
                then s2\<lparr> flow_velocity := min (flow_velocity s2 + 0.2) 30.0 \<rparr> else s2);
          s4 = (if keys K_LEFT
                then s3\<lparr> flow_velocity := max (flow_velocity s3 - 0.2) 2.0 \<rparr> else s3);
          s5 = (if keys K_w
                then s4\<lparr> camera_rotation_x := min (camera_rotation_x s4 + 1.0) 89.0 \<rparr>
                else s4);
          s6 = (if keys K_s
                then s5\<lparr> camera_rotation_x := max (camera_rotation_x s5 - 1.0) (-89.0) \<rparr>
                else s5);
          s7 = (if keys K_a
                then s6\<lparr> camera_rotation_y := py_fmod (camera_rotation_y s6 + 1.0) 360.0 \<rparr>
                else s6);
          s8 = (if keys K_d
                then s7\<lparr> camera_rotation_y := py_fmod (camera_rotation_y s7 - 1.0) 360.0 \<rparr>
                else s7);
          s9 = (if keys K_q
                then s8\<lparr> camera_distance := min (camera_distance s8 + 0.2) 20.0 \<rparr>
                else s8)
      in if keys K_e
         then s9\<lparr> camera_distance := max (camera_distance s9 - 0.2) 3.0 \<rparr>
         else s9)"

definition handle_events :: "event list \<Rightarrow> (key \<Rightarrow> bool) \<Rightarrow> sim_state \<Rightarrow> exit + sim_state" where
  "handle_events es keys s =
     (case event_loop es s of
        Inl e \<Rightarrow> Inl e
      | Inr s1 \<Rightarrow> Inr (apply_keys keys s1))"

text \<open>
  The calls that change the simulation state, and a run of them in any order.
  A run ends when \<open>handle_events\<close> exits.
\<close>

datatype sim_call =
  Spawn "nat \<Rightarrow> particle_draws"
| Update
| Events "event list" "key \<Rightarrow> bool"

fun run_calls :: "sim_call list \<Rightarrow> sim_state \<Rightarrow> exit + sim_state" where
  "run_calls [] s = Inr s"
| "run_calls (Spawn rnd # cs) s = run_calls cs (generate_particles rnd s)"
| "run_calls (Update # cs) s = run_calls cs (update_particles s)"
| "run_calls (Events es keys # cs) s =
     (case handle_events es keys s of
        Inl e \<Rightarrow> Inl e
      | Inr s' \<Rightarrow> run_calls cs s')"

text \<open>The clamps of the airfoil state.\<close>

definition in_range :: "sim_state \<Rightarrow> bool" where
  "in_range s \<longleftrightarrow>
     -25 \<le> airfoil_angle s \<and> airfoil_angle s \<le> 25
     \<and> 2 \<le> flow_velocity s \<and> flow_velocity s \<le> 30"

section \<open>Geometry: \<open>generate_airfoil_profile\<close>\<close>

text \<open>
  The body of the loop of \<open>generate_airfoil_profile\<close> for the index \<open>i\<close>: the point
  appended to \<open>upper_surface\<close> and the point appended to \<open>lower_surface\<close>.
\<close>

definition airfoil_point :: "nat \<Rightarrow> (real \<times> real) \<times> (real \<times> real)" where
  "airfoil_point i =
     (let x = real i / real n_points;
          yc = (if x < camber_position
                then camber_ratio * (x / camber_position\<^sup>2) * (2 * camber_position - x)
                else camber_ratio * ((1 - x) / (1 - camber_position)\<^sup>2)
                       * (1 + x - 2 * camber_position));
          yt = thickness_ratio * (0.2969 * sqrt x - 0.1260 * x - 0.3516 * x\<^sup>2
                                    + 0.2843 * x ^ 3 - 0.1015 * x ^ 4);
          dyc_dx = (if x < camber_position
                    then 2 * camber_ratio / camber_position\<^sup>2 * (camber_position - x)
                    else 2 * camber_ratio / (1 - camber_position)\<^sup>2 * (camber_position - x));
          theta = arctan dyc_dx;
          xu = x - yt * sin theta;
          yu = yc + yt * cos theta;
          xl = x + yt * sin theta;
          yl = yc - yt * cos theta
      in (((xu - 0.5) * AIRFOIL_LENGTH, yu * AIRFOIL_LENGTH),
          ((xl - 0.5) * AIRFOIL_LENGTH, yl * AIRFOIL_LENGTH)))"

text \<open>The loop over \<open>range(n_points + 1)\<close>, returning \<open>(upper_surface, lower_surface)\<close>.\<close>

definition generate_airfoil_profile :: "(real \<times> real) list \<times> (real \<times> real) list" where
  "generate_airfoil_profile =
     (map (\<lambda>i. fst (airfoil_point i)) [0..<n_points + 1],
      map (\<lambda>i. snd (airfoil_point i)) [0..<n_points + 1])"

section \<open>Runs used in the statements\<close>

text \<open>Whether a call makes \<open>handle_events\<close> exit: its event list holds a \<open>QUIT\<close>.\<close>

fun call_quits :: "sim_call \<Rightarrow> bool" where
  "call_quits (Spawn rnd) = False"
| "call_quits Update = False"
| "call_quits (Events es keys) = (QUIT \<in> set es)"

text \<open>The size of the particle pool after a run of calls.\<close>

definition pool_size_after :: "sim_call list \<Rightarrow> sim_state \<Rightarrow> exit + nat" where
  "pool_size_after cs s =
     (case run_calls cs s of
        Inl e \<Rightarrow> Inl e
      | Inr s' \<Rightarrow> Inr (length (particles s')))"

text \<open>A source of random values in which every call of \<open>random()\<close> returns one half.\<close>

definition mid_draws :: "nat \<Rightarrow> particle_draws" where
  "mid_draws k = \<lparr> r_x = 0.5, r_y = 0.5, r_z = 0.5, r_lifetime = 0.5 \<rparr>"

text \<open>A particle that has been deflected, for concrete runs.\<close>

definition deflected_particle :: SimpleParticle where
  "deflected_particle =
     \<lparr> p_x = 0, p_y = 0.5, p_z = 0, speed = 2, lifetime = 100, max_lifetime = 200,
       color = (1.0, 0.0, 0.7, 0.7), deflected = True, deflection_strength = 0.05 \<rparr>"

text \<open>
  The calls of one frame of \<open>main\<close> that change the particle pool or the airfoil
  state, in the order of the loop body: \<open>handle_events\<close>, \<open>generate_particles\<close>,
  \<open>update_particles\<close>. (\<open>calculate_forces\<close>, called while drawing, assigns only the
  two coefficients.) A frame is given by its events, its key states and its
  random values.
\<close>

fun main_calls ::
  "(event list \<times> (key \<Rightarrow> bool) \<times> (nat \<Rightarrow> particle_draws)) list \<Rightarrow> sim_call list" where
  "main_calls [] = []"
| "main_calls ((es, keys, rnd) # frames) =
     Events es keys # Spawn rnd # Update # main_calls frames"

text \<open>
  A pool as the loop of \<open>main\<close> leaves it: every particle is alive, and at most
  \<open>3 * j\<close> particles have more than \<open>249 - j\<close> ticks left.
\<close>

definition fresh_pool :: "SimpleParticle list \<Rightarrow> bool" where
  "fresh_pool ps \<longleftrightarrow>
     (\<forall>j::nat. length (filter (\<lambda>p. 249 - real j < lifetime p) ps) \<le> 3 * j)
     \<and> (\<forall>p \<in> set ps. 0 < lifetime p)"

section \<open>Properties of the force model\<close>

text \<open>
  C7. Below the stall threshold the lift coefficient is an odd function of the
  angle of attack: for every angle \<open>a\<close> with \<open>|a| < 15\<close>, and whatever the other
  state (in particular the flow velocity) is, the coefficient computed at \<open>-a\<close> is
  the negation of the coefficient computed at \<open>a\<close>.
\<close>

theorem lift_coeff_odd:
  assumes "\<bar>a\<bar> < 15"
  shows "lift_coeff_of (s\<lparr> airfoil_angle := - a \<rparr>)
           = - lift_coeff_of (s\<lparr> airfoil_angle := a \<rparr>)"
  using assms
  by (simp add: lift_coeff_of_def calculate_forces_def Let_def radians_def)

theorem lift_coeff_odd_witness:
  "\<bar>10 :: real\<bar> < 15 \<and>
   lift_coeff_of (initial_state\<lparr> airfoil_angle := - 10 \<rparr>)
     = - lift_coeff_of (initial_state\<lparr> airfoil_angle := 10 \<rparr>)"
  using lift_coeff_odd [of 10 initial_state] by simp

text \<open>
  C1. The force computation agrees with the formulas of the specification: for the
  angle \<open>a\<close> and velocity \<open>v\<close> held by the state, the returned pair is
  \<open>(Cl*q*A, Cd*q*A)\<close> and the two coefficients are stored, with \<open>q\<close>, \<open>A\<close>, \<open>Cl\<close>
  and \<open>Cd\<close> as in \<open>spec_compute\<close> (stall decay from 15 degrees on, unclamped extra
  drag above 15 degrees). It is pure and deterministic: the outputs do not depend
  on the coefficients stored before, and nothing but the two coefficients is
  written. At \<open>a = 0\<close>, \<open>v = 10\<close> the outputs are \<open>Cl = 0\<close>, \<open>Cd = 0.015\<close>,
  \<open>liftForce = 0\<close> and \<open>dragForce = 0.015*0.5*1.225*100*10\<close>, which is within
  0.005 of 9.19.
\<close>

theorem calculate_forces_spec:
  "calculate_forces s =
     (case spec_compute (airfoil_angle s) (flow_velocity s) of
        (Cl, Cd, L, D) \<Rightarrow> ((L, D), s\<lparr> LIFT_COEFFICIENT := Cl, DRAG_COEFFICIENT := Cd \<rparr>))
   \<and> calculate_forces (s\<lparr> LIFT_COEFFICIENT := l, DRAG_COEFFICIENT := d \<rparr>) = calculate_forces s
   \<and> spec_compute 0 10 = (0, 0.015, 0, 0.015 * 0.5 * 1.225 * 100 * 10)
   \<and> calculate_forces (s\<lparr> airfoil_angle := 0, flow_velocity := 10 \<rparr>)
       = ((0, 0.015 * 0.5 * 1.225 * 100 * 10),
          s\<lparr> airfoil_angle := 0, flow_velocity := 10,
             LIFT_COEFFICIENT := 0, DRAG_COEFFICIENT := 0.015 \<rparr>)
   \<and> \<bar>0.015 * 0.5 * 1.225 * 100 * 10 - 9.19\<bar> \<le> (0.005 :: real)"
proof -
  have c: "x * y * z = x * z * y" for x y z :: real by simp
  have "calculate_forces s =
     (case spec_compute (airfoil_angle s) (flow_velocity s) of
        (Cl, Cd, L, D) \<Rightarrow> ((L, D), s\<lparr> LIFT_COEFFICIENT := Cl, DRAG_COEFFICIENT := Cd \<rparr>))"
    by (simp add: calculate_forces_def spec_compute_def Let_def radians_def stall_factor_def
        AIR_DENSITY_def REFERENCE_AREA_def AIRFOIL_LENGTH_def AIRFOIL_WIDTH_def
        c [of _ "max 0 _" _])
  moreover have "calculate_forces (s\<lparr> LIFT_COEFFICIENT := l, DRAG_COEFFICIENT := d \<rparr>)
      = calculate_forces s"
    by (simp add: calculate_forces_def Let_def)
  moreover have "spec_compute 0 10 = (0, 0.015, 0, 0.015 * 0.5 * 1.225 * 100 * 10)"
    by (simp add: spec_compute_def Let_def)
  moreover have "calculate_forces (s\<lparr> airfoil_angle := 0, flow_velocity := 10 \<rparr>)
       = ((0, 0.015 * 0.5 * 1.225 * 100 * 10),
          s\<lparr> airfoil_angle := 0, flow_velocity := 10,
             LIFT_COEFFICIENT := 0, DRAG_COEFFICIENT := 0.015 \<rparr>)"
    by (simp add: calculate_forces_def Let_def radians_def AIR_DENSITY_def REFERENCE_AREA_def
        AIRFOIL_LENGTH_def AIRFOIL_WIDTH_def)
  moreover have "\<bar>0.015 * 0.5 * 1.225 * 100 * 10 - 9.19\<bar> \<le> (0.005 :: real)"
    by simp
  ultimately show ?thesis by blast
qed

subsection \<open>Stall decay\<close>

lemma stall_factor_range:
  "0 \<le> stall_factor a" "15 \<le> \<bar>a\<bar> \<Longrightarrow> stall_factor a \<le> 1"
  by (simp_all add: stall_factor_def max_def)

text \<open>
  C6. The stall decay factor \<open>max(0, 1 - (|a|-15)/5)\<close> is the factor applied to the
  lift coefficient from 15 degrees on; it does not increase when \<open>|a|\<close> grows within
  \<open>[15, 20]\<close>, and it is exactly 0 for every angle with \<open>|a| \<ge> 20\<close>, where the lift
  coefficient is exactly 0 too.
\<close>

theorem stall_factor_decay:
  "(15 \<le> \<bar>a\<bar> \<and> \<bar>a\<bar> \<le> \<bar>b\<bar> \<and> \<bar>b\<bar> \<le> 20 \<longrightarrow> stall_factor b \<le> stall_factor a)
   \<and> (15 \<le> \<bar>c\<bar> \<longrightarrow>
        lift_coeff_of (s\<lparr> airfoil_angle := c \<rparr>)
          = 2 * pi * sin (radians c) * (1 - 0.3 * (sin (radians c))\<^sup>2) * stall_factor c)
   \<and> (20 \<le> \<bar>c\<bar> \<longrightarrow>
        stall_factor c = 0 \<and> lift_coeff_of (s\<lparr> airfoil_angle := c \<rparr>) = 0)"
proof (intro conjI impI)
  assume "15 \<le> \<bar>a\<bar> \<and> \<bar>a\<bar> \<le> \<bar>b\<bar> \<and> \<bar>b\<bar> \<le> 20"
  then show "stall_factor b \<le> stall_factor a"
    by (simp add: stall_factor_def max_def)
next
  assume "15 \<le> \<bar>c\<bar>"
  then show "lift_coeff_of (s\<lparr> airfoil_angle := c \<rparr>)
      = 2 * pi * sin (radians c) * (1 - 0.3 * (sin (radians c))\<^sup>2) * stall_factor c"
    by (simp add: lift_coeff_of_def calculate_forces_def Let_def)
next
  assume "20 \<le> \<bar>c\<bar>"
  then show "stall_factor c = 0"
    by (simp add: stall_factor_def max_def)
next
  assume h: "20 \<le> \<bar>c\<bar>"
  then have "stall_factor c = 0"
    by (simp add: stall_factor_def max_def)
  with h show "lift_coeff_of (s\<lparr> airfoil_angle := c \<rparr>) = 0"
    by (simp add: lift_coeff_of_def calculate_forces_def Let_def)
qed

theorem stall_factor_decay_witness:
  "stall_factor 18 \<le> stall_factor 16
   \<and> lift_coeff_of (initial_state\<lparr> airfoil_angle := 22 \<rparr>)
       = 2 * pi * sin (radians 22) * (1 - 0.3 * (sin (radians 22))\<^sup>2) * stall_factor 22
   \<and> stall_factor 22 = 0
   \<and> lift_coeff_of (initial_state\<lparr> airfoil_angle := 22 \<rparr>) = 0"
  using stall_factor_decay [of 16 18 22 initial_state] by simp

subsection \<open>Bounds on the outputs\<close>

lemma lift_shape_range:
  "0 \<le> 1 - 0.3 * (sin x)\<^sup>2" "1 - 0.3 * (sin x)\<^sup>2 \<le> (1::real)"
proof -
  have "(sin x)\<^sup>2 \<le> 1" by (simp add: abs_square_le_1)
  then show "0 \<le> 1 - 0.3 * (sin x)\<^sup>2" by simp
  show "1 - 0.3 * (sin x)\<^sup>2 \<le> (1::real)" by simp
qed

lemma unit_product_bound:
  fixes u f g :: real
  assumes "\<bar>u\<bar> \<le> 1" "0 \<le> f" "f \<le> 1" "0 \<le> g" "g \<le> 1"
  shows "\<bar>2 * pi * u * f * g\<bar> \<le> 2 * pi"
proof -
  have "\<bar>u\<bar> * f \<le> 1 * 1" using assms by (intro mult_mono) auto
  moreover have "0 \<le> \<bar>u\<bar> * f" using assms by simp
  ultimately have "\<bar>u\<bar> * f * g \<le> 1 * 1" using assms by (intro mult_mono) auto
  then have "2 * pi * (\<bar>u\<bar> * f * g) \<le> 2 * pi * 1"
    by (intro mult_left_mono) auto
  moreover have "\<bar>2 * pi * u * f * g\<bar> = 2 * pi * (\<bar>u\<bar> * f * g)"
    using assms by (simp add: abs_mult)
  ultimately show ?thesis by simp
qed

lemma lift_coeff_bound: "\<bar>lift_coeff_of s\<bar> \<le> 2 * pi"
proof (cases "\<bar>airfoil_angle s\<bar> < 15")
  case True
  have "\<bar>2 * pi * sin (radians (airfoil_angle s)) * 1
          * (1 - 0.3 * (sin (radians (airfoil_angle s)))\<^sup>2)\<bar> \<le> 2 * pi"
    by (rule unit_product_bound [OF abs_sin_le_one _ _ lift_shape_range]) simp_all
  with True show ?thesis
    by (simp add: lift_coeff_of_def calculate_forces_def Let_def)
next
  case False
  then have "15 \<le> \<bar>airfoil_angle s\<bar>" by simp
  then have "\<bar>2 * pi * sin (radians (airfoil_angle s)) * stall_factor (airfoil_angle s)
          * (1 - 0.3 * (sin (radians (airfoil_angle s)))\<^sup>2)\<bar> \<le> 2 * pi"
    by (intro unit_product_bound [OF abs_sin_le_one stall_factor_range lift_shape_range])
  with False show ?thesis
    by (simp add: lift_coeff_of_def calculate_forces_def Let_def)
qed

lemma drag_coeff_unfold:
  "drag_coeff_of s = 0.015 + (lift_coeff_of s)\<^sup>2 / (pi * 2.5)
       + (if \<bar>airfoil_angle s\<bar> > 15 then 0.05 * (\<bar>airfoil_angle s\<bar> - 15) else 0)"
  by (simp add: drag_coeff_of_def lift_coeff_of_def calculate_forces_def Let_def)

lemma drag_coeff_lower: "0.015 \<le> drag_coeff_of s"
proof -
  have "0 \<le> (lift_coeff_of s)\<^sup>2 / (pi * 2.5)" by simp
  moreover have "0 \<le> (if \<bar>airfoil_angle s\<bar> > 15 then 0.05 * (\<bar>airfoil_angle s\<bar> - 15) else 0)"
    by simp
  ultimately have "0.015 + 0 + 0 \<le> drag_coeff_of s"
    unfolding drag_coeff_unfold by (intro add_mono order_refl)
  then show ?thesis by simp
qed

lemma drag_coeff_upper:
  assumes "\<bar>airfoil_angle s\<bar> \<le> 25"
  shows "drag_coeff_of s \<le> 0.515 + 8 * pi / 5"
proof -
  have "(lift_coeff_of s)\<^sup>2 \<le> (2 * pi)\<^sup>2"
    using lift_coeff_bound [of s] by (intro power2_le_iff_abs_le [THEN iffD2]) auto
  then have "(lift_coeff_of s)\<^sup>2 / (pi * 2.5) \<le> (2 * pi)\<^sup>2 / (pi * 2.5)"
    by (intro divide_right_mono) auto
  moreover have "(2 * pi)\<^sup>2 / (pi * 2.5) = 8 * pi / 5"
    by (simp add: power2_eq_square)
  moreover have "(if \<bar>airfoil_angle s\<bar> > 15 then 0.05 * (\<bar>airfoil_angle s\<bar> - 15) else 0) \<le> 0.5"
    using assms by simp
  ultimately have "drag_coeff_of s \<le> 0.015 + 8 * pi / 5 + 0.5"
    unfolding drag_coeff_unfold by (intro add_mono order_refl) simp_all
  then show ?thesis by simp
qed

lemma forces_unfold:
  "lift_force_of s = lift_coeff_of s * (6.125 * (flow_velocity s)\<^sup>2)"
  "drag_force_of s = drag_coeff_of s * (6.125 * (flow_velocity s)\<^sup>2)"
  by (simp_all add: lift_force_of_def drag_force_of_def lift_coeff_of_def drag_coeff_of_def
      calculate_forces_def Let_def AIR_DENSITY_def REFERENCE_AREA_def AIRFOIL_LENGTH_def
      AIRFOIL_WIDTH_def)

lemma pressure_area_bound:
  fixes v :: real
  assumes "2 \<le> v" "v \<le> 30"
  shows "0 \<le> 6.125 * v\<^sup>2" "6.125 * v\<^sup>2 \<le> 5512.5"
proof -
  show "0 \<le> 6.125 * v\<^sup>2" by simp
  have "v\<^sup>2 \<le> 30\<^sup>2" using assms by (intro power_mono) auto
  then show "6.125 * v\<^sup>2 \<le> 5512.5" by simp
qed

lemma lift_force_bound:
  assumes "2 \<le> flow_velocity s" "flow_velocity s \<le> 30"
  shows "\<bar>lift_force_of s\<bar> \<le> 2 * pi * 5512.5"
proof -
  have "\<bar>lift_coeff_of s\<bar> * (6.125 * (flow_velocity s)\<^sup>2) \<le> (2 * pi) * 5512.5"
    using lift_coeff_bound [of s] pressure_area_bound [OF assms]
    by (intro mult_mono) auto
  then show ?thesis by (simp add: forces_unfold abs_mult)
qed

lemma drag_force_bound:
  assumes "\<bar>airfoil_angle s\<bar> \<le> 25" "2 \<le> flow_velocity s" "flow_velocity s \<le> 30"
  shows "0 \<le> drag_force_of s" "drag_force_of s \<le> (0.515 + 8 * pi / 5) * 5512.5"
proof -
  have d0: "0 \<le> drag_coeff_of s" by (rule order_trans [OF _ drag_coeff_lower]) simp
  show "0 \<le> drag_force_of s" using d0 by (simp add: forces_unfold)
  have "drag_coeff_of s * (6.125 * (flow_velocity s)\<^sup>2) \<le> (0.515 + 8 * pi / 5) * 5512.5"
    using drag_coeff_upper [OF assms(1)] pressure_area_bound [OF assms(2,3)] d0
    by (intro mult_mono) auto
  then show "drag_force_of s \<le> (0.515 + 8 * pi / 5) * 5512.5" by (simp add: forces_unfold)
qed

text \<open>
  C8. For every angle of attack in \<open>[-25, 25]\<close> and every flow velocity in
  \<open>[2, 30]\<close> the four outputs are finite: each lies within an explicit bound
  (\<open>|liftCoeff| \<le> 2\<pi>\<close>, \<open>dragCoeff \<le> 0.515 + 8\<pi>/5\<close>, the forces at most these
  times \<open>5512.5\<close>, all below 50000), and the drag coefficient is at least 0.015.
\<close>

theorem forces_finite_in_range:
  assumes "-25 \<le> airfoil_angle s" "airfoil_angle s \<le> 25"
    and "2 \<le> flow_velocity s" "flow_velocity s \<le> 30"
  shows "0.015 \<le> drag_coeff_of s
         \<and> \<bar>lift_coeff_of s\<bar> \<le> 2 * pi
         \<and> drag_coeff_of s \<le> 0.515 + 8 * pi / 5
         \<and> \<bar>lift_force_of s\<bar> \<le> 2 * pi * 5512.5
         \<and> 0 \<le> drag_force_of s
         \<and> drag_force_of s \<le> (0.515 + 8 * pi / 5) * 5512.5
         \<and> 2 * pi * 5512.5 < 50000
         \<and> (0.515 + 8 * pi / 5) * 5512.5 < 50000"
proof -
  have a: "\<bar>airfoil_angle s\<bar> \<le> 25" using assms(1,2) by simp
  have "2 * pi * 5512.5 < 50000" "(0.515 + 8 * pi / 5) * 5512.5 < 50000"
    using pi_less_4 by simp_all
  then show ?thesis
    using drag_coeff_lower [of s] lift_coeff_bound [of s] drag_coeff_upper [OF a]
      lift_force_bound [OF assms(3,4)] drag_force_bound [OF a assms(3,4)]
    by blast
qed

theorem forces_finite_in_range_witness:
  "0.015 \<le> drag_coeff_of initial_state
   \<and> \<bar>lift_coeff_of initial_state\<bar> \<le> 2 * pi
   \<and> drag_coeff_of initial_state \<le> 0.515 + 8 * pi / 5
   \<and> \<bar>lift_force_of initial_state\<bar> \<le> 2 * pi * 5512.5
   \<and> 0 \<le> drag_force_of initial_state
   \<and> drag_force_of initial_state \<le> (0.515 + 8 * pi / 5) * 5512.5"
  using forces_finite_in_range [of initial_state] by (simp add: initial_state_def)

section \<open>Properties of the particle pool\<close>

lemma length_update_loop: "length (update_loop angle ps) \<le> length ps"
  by (induction ps) (auto simp: Let_def)

lemma generate_particles_append:
  "particles (generate_particles rnd s) =
     particles s @ (if length (particles s) < 1000
                    then [SimpleParticle_init (flow_velocity s) (rnd 0),
                          SimpleParticle_init (flow_velocity s) (rnd 1),
                          SimpleParticle_init (flow_velocity s) (rnd 2)]
                    else [])"
proof -
  have "[0..<3] = [0, 1, 2::nat]" by (simp add: upt_rec)
  then show ?thesis by (simp add: generate_particles_def MAX_PARTICLES_def)
qed

lemma length_generate_particles:
  "length (particles (generate_particles rnd s)) =
     (if length (particles s) < 1000 then length (particles s) + 3 else length (particles s))"
  by (simp add: generate_particles_append)

lemma Let_invariant:
  assumes "I t" and "\<And>x. I x \<Longrightarrow> I (f x)"
  shows "I (Let t f)"
  using assms by simp

lemma event_loop_particles:
  "event_loop es s = Inr s' \<Longrightarrow> particles s' = particles s"
  by (induction es s rule: event_loop.induct) (auto simp: reset_def split: if_splits)

lemma apply_keys_particles: "particles (apply_keys keys s) = particles s"
  unfolding apply_keys_def
  by (intro Let_invariant [where I = "\<lambda>x. particles x = particles s"]) simp_all

lemma handle_events_particles:
  "handle_events es keys s = Inr s' \<Longrightarrow> particles s' = particles s"
  by (auto simp: handle_events_def apply_keys_particles split: sum.splits
      dest: event_loop_particles)

lemma pool_bound_step:
  "length (particles s) \<le> 1002 \<Longrightarrow> length (particles (generate_particles rnd s)) \<le> 1002"
  "length (particles s) \<le> 1002 \<Longrightarrow> length (particles (update_particles s)) \<le> 1002"
  using length_update_loop [of "airfoil_angle s" "particles s"]
  by (simp_all add: length_generate_particles update_particles_def)

lemma pool_bound_run:
  "length (particles s) \<le> 1002 \<Longrightarrow> run_calls cs s = Inr s' \<Longrightarrow> length (particles s') \<le> 1002"
proof (induction cs s rule: run_calls.induct)
  case (1 s)
  then show ?case by simp
next
  case (2 rnd cs s)
  then show ?case by (simp add: pool_bound_step)
next
  case (3 cs s)
  then show ?case by (simp add: pool_bound_step)
next
  case (4 es keys cs s)
  then show ?case
    by (auto split: sum.splits dest: handle_events_particles)
qed

lemma spawn_only_run:
  "length (particles s) + 3 * n \<le> 1002 \<Longrightarrow>
   \<exists>s'. run_calls (replicate n (Spawn rnd)) s = Inr s'
        \<and> length (particles s') = length (particles s) + 3 * n"
proof (induction n arbitrary: s)
  case 0
  then show ?case by simp
next
  case (Suc n)
  from Suc.prems have lt: "length (particles s) < 1000" by simp
  then have len: "length (particles (generate_particles rnd s)) = length (particles s) + 3"
    by (simp add: length_generate_particles)
  with Suc.prems have "length (particles (generate_particles rnd s)) + 3 * n \<le> 1002" by simp
  from Suc.IH [OF this] len show ?case by auto
qed

lemma reset_reset: "reset (reset s) = reset s"
  by (simp add: reset_def)

lemma event_loop_no_quit:
  "QUIT \<notin> set es \<Longrightarrow>
   event_loop es s = Inr (if KEYDOWN K_r \<in> set es then reset s else s)"
  by (induction es s rule: event_loop.induct) (auto simp: reset_reset)

lemma run_calls_returns:
  "\<not> list_ex call_quits cs \<Longrightarrow> \<exists>t. run_calls cs s = Inr t"
proof (induction cs s rule: run_calls.induct)
  case (1 s)
  then show ?case by simp
next
  case (2 rnd cs s)
  then show ?case by simp
next
  case (3 cs s)
  then show ?case by simp
next
  case (4 es keys cs s)
  then have q: "QUIT \<notin> set es" and rest: "\<not> list_ex call_quits cs" by simp_all
  from 4(1) [OF _ rest] event_loop_no_quit [OF q, of s] show ?case
    by (simp add: handle_events_def)
qed

text \<open>
  C2, as claimed, fails: starting from the empty pool of the initial state, 334
  spawns in a row leave 1002 particles, more than \<open>MAX_PARTICLES = 1000\<close>. The
  guard of \<open>generate_particles\<close> is tested once, before a batch of three.
\<close>

theorem pool_exceeds_cap:
  "particles initial_state = []
   \<and> pool_size_after (replicate 334 (Spawn mid_draws)) initial_state = Inr 1002
   \<and> MAX_PARTICLES < 1002"
proof -
  have "length (particles initial_state) + 3 * 334 \<le> 1002"
    by (simp add: initial_state_def)
  from spawn_only_run [OF this, of mid_draws]
  show ?thesis by (auto simp: pool_size_after_def initial_state_def MAX_PARTICLES_def)
qed

text \<open>
  C2, amended. Starting from the empty pool, after any sequence of spawn and
  update calls (input handling may be interleaved) the pool holds at most
  \<open>MAX_PARTICLES + 2 = 1002\<close> particles: every sequence that returns ends within
  this bound, and every sequence without a \<open>QUIT\<close> event returns.
\<close>

theorem pool_within_cap_plus_two:
  assumes "particles s = []"
  shows "(pool_size_after cs s = Inr n \<longrightarrow> n \<le> MAX_PARTICLES + 2)
    \<and> (\<not> list_ex call_quits cs \<longrightarrow>
         (\<exists>m. pool_size_after cs s = Inr m \<and> m \<le> MAX_PARTICLES + 2))
    \<and> MAX_PARTICLES + 2 = 1002"
proof -
  have start: "length (particles s) \<le> 1002" using assms by simp
  have bound: "m \<le> MAX_PARTICLES + 2" if "pool_size_after cs s = Inr m" for m
  proof -
    from that obtain s' where s': "run_calls cs s = Inr s'" "m = length (particles s')"
      by (auto simp: pool_size_after_def split: sum.splits)
    from pool_bound_run [OF start s'(1)] s'(2) show ?thesis
      by (simp add: MAX_PARTICLES_def)
  qed
  have ret: "\<exists>m. pool_size_after cs s = Inr m" if "\<not> list_ex call_quits cs"
    using run_calls_returns [OF that, of s] by (auto simp: pool_size_after_def)
  have "MAX_PARTICLES + 2 = 1002" by (simp add: MAX_PARTICLES_def)
  with bound ret show ?thesis by blast
qed

theorem pool_within_cap_plus_two_witness:
  "particles initial_state = []
   \<and> pool_size_after [Spawn mid_draws, Spawn mid_draws, Update] initial_state = Inr 6
   \<and> (6 :: nat) \<le> MAX_PARTICLES + 2
   \<and> \<not> list_ex call_quits [Spawn mid_draws, Spawn mid_draws, Update]"
proof -
  have e: "particles initial_state = []"
    by (simp add: initial_state_def)
  have r: "pool_size_after [Spawn mid_draws, Spawn mid_draws, Update] initial_state = Inr 6"
    by (simp add: pool_size_after_def generate_particles_def update_particles_def
        initial_state_def MAX_PARTICLES_def upt_rec SimpleParticle_init_def mid_draws_def
        uniform_def SimpleParticle_update_def particle_dead_def Let_def AIRFOIL_WIDTH_def)
  show ?thesis
    using e r pool_within_cap_plus_two
      [OF e, of "[Spawn mid_draws, Spawn mid_draws, Update]" 6]
    by simp
qed

subsection \<open>The pool along the loop of \<open>main\<close>\<close>

text \<open>
  In \<open>main\<close> every spawn is followed by an update, and a particle lives at most
  250 ticks (\<open>random()\<close> returns at most 1). So the pool holds at most 747
  particles after each frame, and the guard of \<open>generate_particles\<close> never fails
  there.
\<close>

lemma update_lifetime: "lifetime (SimpleParticle_update angle p) = lifetime p - 1"
  by (simp add: SimpleParticle_update_def Let_def)

lemma update_loop_filter:
  "update_loop angle ps =
     filter (\<lambda>p. \<not> particle_dead p) (map (SimpleParticle_update angle) ps)"
  by (induction ps) (simp_all add: Let_def)

lemma fresh_pool_length: "fresh_pool ps \<Longrightarrow> length ps \<le> 747"
proof -
  assume f: "fresh_pool ps"
  then have "filter (\<lambda>p. 249 - real (249::nat) < lifetime p) ps = ps"
    by (auto simp: fresh_pool_def intro!: filter_True)
  moreover from f have "length (filter (\<lambda>p. 249 - real (249::nat) < lifetime p) ps) \<le> 3 * 249"
    unfolding fresh_pool_def by blast
  ultimately show ?thesis by simp
qed

lemma length_filter_filter_le:
  "length (filter P (filter Q xs)) \<le> length (filter P xs)"
  by (induction xs) auto

lemma fresh_pool_step:
  assumes f: "fresh_pool ps"
    and new: "\<forall>q \<in> set new. lifetime q \<le> 250" "length new \<le> 3"
  shows "fresh_pool (update_loop angle (ps @ new))"
  unfolding fresh_pool_def
proof (intro conjI allI ballI)
  fix p assume "p \<in> set (update_loop angle (ps @ new))"
  then show "0 < lifetime p"
    by (auto simp: update_loop_filter particle_dead_def)
next
  fix j :: nat
  let ?P = "\<lambda>p. 249 - real j < lifetime p"
  let ?Q = "\<lambda>p. 250 - real j < lifetime p"
  have "length (filter ?P (update_loop angle (ps @ new)))
      \<le> length (filter ?P (map (SimpleParticle_update angle) (ps @ new)))"
    unfolding update_loop_filter by (rule length_filter_filter_le)
  also have "\<dots> = length (filter ?Q ps) + length (filter ?Q new)"
    by (simp add: filter_map comp_def update_lifetime)
  also have "\<dots> \<le> 3 * j"
  proof (cases j)
    case 0
    from f have "length (filter (\<lambda>p. 249 - real (0::nat) < lifetime p) ps) \<le> 3 * 0"
      unfolding fresh_pool_def by blast
    then have "\<forall>p \<in> set ps. \<not> 249 < lifetime p"
      by (simp add: filter_empty_conv)
    then have "filter ?Q ps = []"
      using 0 by (auto simp: filter_empty_conv)
    moreover have "filter ?Q new = []"
      using 0 new(1) by (auto simp: filter_empty_conv)
    ultimately show ?thesis by simp
  next
    case (Suc i)
    from f have "length (filter (\<lambda>p. 249 - real i < lifetime p) ps) \<le> 3 * i"
      unfolding fresh_pool_def by blast
    moreover have "?Q = (\<lambda>p. 249 - real i < lifetime p)"
      using Suc by (auto simp: fun_eq_iff)
    moreover have "length (filter ?Q new) \<le> 3"
      using new(2) length_filter_le [of ?Q new] by linarith
    ultimately show ?thesis using Suc by simp
  qed
  finally show "length (filter ?P (update_loop angle (ps @ new))) \<le> 3 * j" .
qed

lemma fresh_pool_frame:
  assumes f: "fresh_pool (particles s)"
    and r: "\<forall>k<3. r_lifetime (rnd k) \<le> 1"
  shows "fresh_pool (particles (update_particles (generate_particles rnd s)))"
proof -
  from fresh_pool_length [OF f] have lt: "length (particles s) < 1000" by simp
  let ?new = "[SimpleParticle_init (flow_velocity s) (rnd 0),
               SimpleParticle_init (flow_velocity s) (rnd 1),
               SimpleParticle_init (flow_velocity s) (rnd 2)]"
  from lt have g: "particles (generate_particles rnd s) = particles s @ ?new"
    by (simp add: generate_particles_append)
  have "\<forall>q \<in> set ?new. lifetime q \<le> 250"
    using r by (simp add: SimpleParticle_init_def uniform_def)
  moreover have "length ?new \<le> 3" by simp
  ultimately have "fresh_pool (update_loop (airfoil_angle (generate_particles rnd s))
      (particles s @ ?new))"
    using f by (intro fresh_pool_step)
  then show ?thesis by (simp add: update_particles_def g)
qed

lemma main_loop_fresh:
  "fresh_pool (particles s) \<Longrightarrow>
   \<forall>(es, keys, rnd) \<in> set frames. \<forall>k<3. r_lifetime (rnd k) \<le> 1 \<Longrightarrow>
   run_calls (main_calls frames) s = Inr s' \<Longrightarrow> fresh_pool (particles s')"
proof (induction frames arbitrary: s rule: main_calls.induct)
  case 1
  then show ?case by simp
next
  case (2 es keys rnd frames)
  from 2(4) obtain s1 where h: "handle_events es keys s = Inr s1"
    and rest: "run_calls (main_calls frames) (update_particles (generate_particles rnd s1)) = Inr s'"
    by (auto split: sum.splits)
  from h have "particles s1 = particles s" by (rule handle_events_particles)
  with 2(2) have "fresh_pool (particles s1)" by simp
  moreover from 2(3) have "\<forall>k<3. r_lifetime (rnd k) \<le> 1" by simp
  ultimately have "fresh_pool (particles (update_particles (generate_particles rnd s1)))"
    by (rule fresh_pool_frame)
  from 2(1) [OF this _ rest] 2(3) show ?case by simp
qed

lemma main_loop_pool_below_cap:
  assumes "particles s = []"
    and "\<forall>(es, keys, rnd) \<in> set frames. \<forall>k<3. r_lifetime (rnd k) \<le> 1"
    and "pool_size_after (main_calls frames) s = Inr n"
  shows "n \<le> 747"
proof -
  from assms(3) obtain s' where s': "run_calls (main_calls frames) s = Inr s'"
    "n = length (particles s')"
    by (auto simp: pool_size_after_def split: sum.splits)
  have "fresh_pool (particles s)" using assms(1) by (simp add: fresh_pool_def)
  from main_loop_fresh [OF this assms(2) s'(1)] fresh_pool_length s'(2) show ?thesis by blast
qed

text \<open>
  C10. A spawn appends exactly three new particles when the pool holds fewer than
  1000 and none otherwise. Hence, starting from the empty pool, after any
  interleaving of spawn, update and input-handling calls that returns, the pool
  holds at most 1002 particles; and every interleaving in which no \<open>QUIT\<close> event
  arrives does return.
\<close>

theorem spawn_batch_pool_bound:
  "particles (generate_particles rnd s) =
     particles s @ (if length (particles s) < 1000
                    then [SimpleParticle_init (flow_velocity s) (rnd 0),
                          SimpleParticle_init (flow_velocity s) (rnd 1),
                          SimpleParticle_init (flow_velocity s) (rnd 2)]
                    else [])
   \<and> (particles s = [] \<longrightarrow> pool_size_after cs s = Inr n \<longrightarrow> n \<le> 1002)
   \<and> (\<not> list_ex call_quits cs \<longrightarrow> (\<exists>m. pool_size_after cs s = Inr m))"
proof (intro conjI impI)
  show "particles (generate_particles rnd s) =
     particles s @ (if length (particles s) < 1000
                    then [SimpleParticle_init (flow_velocity s) (rnd 0),
                          SimpleParticle_init (flow_velocity s) (rnd 1),
                          SimpleParticle_init (flow_velocity s) (rnd 2)]
                    else [])"
    by (rule generate_particles_append)
next
  assume e: "particles s = []" and r: "pool_size_after cs s = Inr n"
  from r obtain s' where s': "run_calls cs s = Inr s'" "n = length (particles s')"
    by (auto simp: pool_size_after_def split: sum.splits)
  from e have "length (particles s) \<le> 1002" by simp
  from pool_bound_run [OF this s'(1)] s'(2) show "n \<le> 1002" by simp
next
  assume "\<not> list_ex call_quits cs"
  from run_calls_returns [OF this, of s] show "\<exists>m. pool_size_after cs s = Inr m"
    by (auto simp: pool_size_after_def)
qed

theorem spawn_batch_pool_bound_witness:
  "particles initial_state = []
   \<and> pool_size_after [Spawn mid_draws, Update, Spawn mid_draws] initial_state = Inr 6
   \<and> (6 :: nat) \<le> 1002
   \<and> \<not> list_ex call_quits [Spawn mid_draws, Update, Spawn mid_draws]"
proof -
  have "pool_size_after [Spawn mid_draws, Update, Spawn mid_draws] initial_state = Inr 6"
    by (simp add: pool_size_after_def generate_particles_def update_particles_def
        initial_state_def MAX_PARTICLES_def upt_rec SimpleParticle_init_def mid_draws_def
        uniform_def SimpleParticle_update_def particle_dead_def Let_def AIRFOIL_WIDTH_def)
  moreover have "particles initial_state = []"
    by (simp add: initial_state_def)
  ultimately show ?thesis
    using spawn_batch_pool_bound
      [of mid_draws initial_state "[Spawn mid_draws, Update, Spawn mid_draws]" 6]
    by simp
qed

section \<open>Properties of input handling\<close>

lemma reset_in_range: "in_range (reset s)"
  by (simp add: reset_def in_range_def)

lemma event_loop_in_range:
  "in_range s \<Longrightarrow> event_loop es s = Inr s' \<Longrightarrow> in_range s'"
  by (induction es s rule: event_loop.induct) (auto simp: reset_in_range split: if_splits)

lemma apply_keys_in_range:
  assumes "in_range s"
  shows "in_range (apply_keys keys s)"
  unfolding apply_keys_def
  by (intro Let_invariant [where I = in_range]) (use assms in \<open>auto simp: in_range_def\<close>)

lemma handle_events_in_range:
  "in_range s \<Longrightarrow> handle_events es keys s = Inr s' \<Longrightarrow> in_range s'"
  by (auto simp: handle_events_def split: sum.splits
      intro: apply_keys_in_range event_loop_in_range)

lemma in_range_particles_upd: "in_range (s\<lparr> particles := ps \<rparr>) = in_range s"
  by (simp add: in_range_def)

lemma in_range_run:
  "in_range s \<Longrightarrow> run_calls cs s = Inr s' \<Longrightarrow> in_range s'"
proof (induction cs s rule: run_calls.induct)
  case (1 s)
  then show ?case by simp
next
  case (2 rnd cs s)
  then show ?case by (simp add: generate_particles_def in_range_particles_upd)
next
  case (3 cs s)
  then show ?case by (simp add: update_particles_def in_range_particles_upd)
next
  case (4 es keys cs s)
  then show ?case
    by (auto split: sum.splits dest: handle_events_in_range)
qed

lemma hold_up_step:
  "apply_keys (\<lambda>k. k = K_UP) s = s\<lparr> airfoil_angle := min (airfoil_angle s + 0.5) 25 \<rparr>"
  by (simp add: apply_keys_def Let_def)

lemma hold_down_step:
  "apply_keys (\<lambda>k. k = K_DOWN) s = s\<lparr> airfoil_angle := max (airfoil_angle s - 0.5) (-25) \<rparr>"
  by (simp add: apply_keys_def Let_def)

lemma hold_right_step:
  "apply_keys (\<lambda>k. k = K_RIGHT) s = s\<lparr> flow_velocity := min (flow_velocity s + 0.2) 30 \<rparr>"
  by (simp add: apply_keys_def Let_def)

lemma hold_left_step:
  "apply_keys (\<lambda>k. k = K_LEFT) s = s\<lparr> flow_velocity := max (flow_velocity s - 0.2) 2 \<rparr>"
  by (simp add: apply_keys_def Let_def)

lemma no_keys_step: "apply_keys (\<lambda>k. False) s = s"
  by (simp add: apply_keys_def Let_def)

lemma hold_up_run:
  "airfoil_angle s \<le> 25 \<Longrightarrow>
   \<exists>s'. run_calls (replicate n (Events [] (\<lambda>k. k = K_UP))) s = Inr s'
        \<and> airfoil_angle s' = min (airfoil_angle s + 0.5 * real n) 25"
proof (induction n arbitrary: s)
  case 0
  then show ?case by simp
next
  case (Suc n)
  obtain s' where
    "run_calls (replicate n (Events [] (\<lambda>k. k = K_UP)))
       (s\<lparr> airfoil_angle := min (airfoil_angle s + 0.5) 25 \<rparr>) = Inr s'"
    "airfoil_angle s' = min (min (airfoil_angle s + 0.5) 25 + 0.5 * real n) 25"
    using Suc.IH [of "s\<lparr> airfoil_angle := min (airfoil_angle s + 0.5) 25 \<rparr>"] by auto
  with Suc.prems show ?case
    by (auto simp: handle_events_def hold_up_step min_def field_simps)
qed

text \<open>
  C3. From a state whose angle of attack lies in \<open>[-25, 25]\<close> and whose flow
  velocity lies in \<open>[2, 30]\<close>, every run of calls (input handling on any events
  and any key states, interleaved with spawns and updates) that returns ends in
  such a state, and every run without a \<open>QUIT\<close> event returns. One increase or
  decrease step moves the angle by 0.5 and the velocity by 0.2, clamped. Holding
  the increase-angle key alone for 1000 ticks yields an angle of exactly 25.
\<close>

theorem input_clamps:
  assumes "in_range s"
  shows "(run_calls cs s = Inr s' \<longrightarrow> in_range s')
    \<and> (\<not> list_ex call_quits cs \<longrightarrow> (\<exists>t. run_calls cs s = Inr t))
    \<and> (\<exists>t. run_calls (replicate 1000 (Events [] (\<lambda>k. k = K_UP))) s = Inr t
            \<and> airfoil_angle t = 25)
    \<and> apply_keys (\<lambda>k. k = K_UP) s = s\<lparr> airfoil_angle := min (airfoil_angle s + 0.5) 25 \<rparr>
    \<and> apply_keys (\<lambda>k. k = K_DOWN) s = s\<lparr> airfoil_angle := max (airfoil_angle s - 0.5) (-25) \<rparr>
    \<and> apply_keys (\<lambda>k. k = K_RIGHT) s = s\<lparr> flow_velocity := min (flow_velocity s + 0.2) 30 \<rparr>
    \<and> apply_keys (\<lambda>k. k = K_LEFT) s = s\<lparr> flow_velocity := max (flow_velocity s - 0.2) 2 \<rparr>"
proof -
  have a: "run_calls cs s = Inr s' \<longrightarrow> in_range s'"
    using in_range_run [OF assms] by blast
  have b: "\<not> list_ex call_quits cs \<longrightarrow> (\<exists>t. run_calls cs s = Inr t)"
    using run_calls_returns by blast
  have le: "airfoil_angle s \<le> 25" and ge: "-25 \<le> airfoil_angle s"
    using assms by (simp_all add: in_range_def)
  from hold_up_run [OF le, of 1000] ge
  have c: "\<exists>t. run_calls (replicate 1000 (Events [] (\<lambda>k. k = K_UP))) s = Inr t
            \<and> airfoil_angle t = 25"
    by auto
  show ?thesis
    using a b c hold_up_step hold_down_step hold_right_step hold_left_step by blast
qed

theorem input_clamps_witness:
  "in_range initial_state
   \<and> run_calls [Events [KEYDOWN K_r] (\<lambda>k. k = K_UP)] initial_state
       = Inr (reset initial_state \<lparr> airfoil_angle := 0.5 \<rparr>)
   \<and> in_range (reset initial_state \<lparr> airfoil_angle := 0.5 \<rparr>)
   \<and> \<not> list_ex call_quits [Events [KEYDOWN K_r] (\<lambda>k. k = K_UP)]"
proof -
  have i: "in_range initial_state"
    by (simp add: in_range_def initial_state_def)
  have r: "run_calls [Events [KEYDOWN K_r] (\<lambda>k. k = K_UP)] initial_state
       = Inr (reset initial_state \<lparr> airfoil_angle := 0.5 \<rparr>)"
    by (simp add: handle_events_def hold_up_step reset_def)
  show ?thesis
    using i r input_clamps [OF i, of "[Events [KEYDOWN K_r] (\<lambda>k. k = K_UP)]"
        "reset initial_state \<lparr> airfoil_angle := 0.5 \<rparr>"]
    by simp
qed

text \<open>
  C4. From any state, an event list without \<open>QUIT\<close> that holds a key-down of the
  reset key leaves the event loop in the reset state: angle of attack 0, flow
  velocity 10, camera pitch 30, camera yaw 45 and camera distance 10, each
  exactly. \<open>handle_events\<close> then applies the keys held in that tick to this state;
  with no key held it returns the reset state itself.
\<close>

theorem reset_key:
  assumes "QUIT \<notin> set es" and "KEYDOWN K_r \<in> set es"
  shows "event_loop es s = Inr (reset s)
    \<and> handle_events es keys s = Inr (apply_keys keys (reset s))
    \<and> handle_events es (\<lambda>k. False) s = Inr (reset s)
    \<and> airfoil_angle (reset s) = 0
    \<and> flow_velocity (reset s) = 10
    \<and> camera_rotation_x (reset s) = 30
    \<and> camera_rotation_y (reset s) = 45
    \<and> camera_distance (reset s) = 10"
proof -
  have e: "event_loop es s = Inr (reset s)"
    using event_loop_no_quit [OF assms(1), of s] assms(2) by simp
  then show ?thesis
    by (simp add: handle_events_def no_keys_step reset_def)
qed

theorem reset_key_witness:
  "QUIT \<notin> set [KEYDOWN K_UP, KEYDOWN K_r, OTHER_EVENT]
   \<and> KEYDOWN K_r \<in> set [KEYDOWN K_UP, KEYDOWN K_r, OTHER_EVENT]
   \<and> handle_events [KEYDOWN K_UP, KEYDOWN K_r, OTHER_EVENT] (\<lambda>k. False)
        (initial_state\<lparr> airfoil_angle := 12.5, flow_velocity := 7.2 \<rparr>)
       = Inr (reset (initial_state\<lparr> airfoil_angle := 12.5, flow_velocity := 7.2 \<rparr>))
   \<and> airfoil_angle (reset (initial_state\<lparr> airfoil_angle := 12.5, flow_velocity := 7.2 \<rparr>)) = 0"
  using reset_key [of "[KEYDOWN K_UP, KEYDOWN K_r, OTHER_EVENT]"
      "initial_state\<lparr> airfoil_angle := 12.5, flow_velocity := 7.2 \<rparr>" "\<lambda>k. False"]
  by (simp add: no_keys_step)

section \<open>Properties of the particle update\<close>

lemma update_deflected:
  "deflected p \<Longrightarrow>
   SimpleParticle_update angle p =
     p\<lparr> p_x := p_x p + speed p * 0.05,
        p_y := p_y p + deflection_strength p,
        deflection_strength := deflection_strength p * 0.9995,
        lifetime := lifetime p - 1 \<rparr>"
  by (simp add: SimpleParticle_update_def Let_def)

lemma update_keeps_deflected:
  "deflected p \<Longrightarrow> deflected (SimpleParticle_update angle p)"
  by (simp add: update_deflected)

lemma run_updates_deflected:
  "deflected p \<Longrightarrow> deflected (run_updates angles p)"
  by (induction angles arbitrary: p) (simp_all add: update_keeps_deflected)

lemma run_updates_strength:
  "deflected p \<Longrightarrow>
   deflection_strength (run_updates angles p) = deflection_strength p * 0.9995 ^ length angles"
proof (induction angles arbitrary: p)
  case Nil
  then show ?case by simp
next
  case (Cons a angles)
  have "deflected (SimpleParticle_update a p)" using Cons.prems by (rule update_keeps_deflected)
  from Cons.IH [OF this] Cons.prems show ?case by (simp add: update_deflected)
qed

lemma run_updates_angle_independent:
  "deflected p \<Longrightarrow> length angles = length angles' \<Longrightarrow>
   run_updates angles p = run_updates angles' p"
proof (induction angles arbitrary: p angles')
  case Nil
  then show ?case by simp
next
  case (Cons a angles)
  then obtain b bs where b: "angles' = b # bs" "length angles = length bs"
    by (cases angles') auto
  have eq: "SimpleParticle_update a p = SimpleParticle_update b p"
    using Cons.prems(1) by (simp add: update_deflected)
  have "deflected (SimpleParticle_update a p)"
    using Cons.prems(1) by (rule update_keeps_deflected)
  from Cons.IH [OF this b(2)] eq b(1) show ?case by simp
qed

text \<open>
  C9. For a particle whose \<open>deflected\<close> flag is set, one tick adds
  \<open>deflection_strength\<close> to \<open>y\<close> and multiplies \<open>deflection_strength\<close> by 0.9995
  (besides advecting \<open>x\<close> and ageing), whatever the airfoil angle is: the
  deflection test is not evaluated. The flag stays set over any number of ticks,
  the strength after \<open>n\<close> ticks is the initial one times \<open>0.9995 ^ n\<close>, and the
  particle's whole evolution is the same under any two sequences of airfoil
  angles of equal length.
\<close>

theorem deflection_one_shot:
  assumes "deflected p"
  shows "SimpleParticle_update angle p =
           p\<lparr> p_x := p_x p + speed p * 0.05,
              p_y := p_y p + deflection_strength p,
              deflection_strength := deflection_strength p * 0.9995,
              lifetime := lifetime p - 1 \<rparr>
    \<and> deflected (run_updates angles p)
    \<and> deflection_strength (run_updates angles p)
        = deflection_strength p * 0.9995 ^ length angles
    \<and> (length angles = length angles' \<longrightarrow> run_updates angles p = run_updates angles' p)"
  using assms update_deflected run_updates_deflected run_updates_strength
    run_updates_angle_independent
  by blast

theorem deflection_one_shot_witness:
  "deflected deflected_particle
   \<and> SimpleParticle_update 10 deflected_particle =
       deflected_particle\<lparr> p_x := 0.1, p_y := 0.55,
                            deflection_strength := 0.049975, lifetime := 99 \<rparr>
   \<and> deflected (run_updates [0, 10] deflected_particle)
   \<and> run_updates [0, 10] deflected_particle = run_updates [5, -20] deflected_particle"
proof -
  have d: "deflected deflected_particle"
    by (simp add: deflected_particle_def)
  have w: "SimpleParticle_update 10 deflected_particle =
       deflected_particle\<lparr> p_x := 0.1, p_y := 0.55,
                            deflection_strength := 0.049975, lifetime := 99 \<rparr>"
    by (simp add: update_deflected deflected_particle_def)
  note t = deflection_one_shot [OF d, of 10 "[0, 10]" "[5, -20]"]
  have a: "deflected (run_updates [0, 10] deflected_particle)"
    using t by blast
  have "length [0, 10 :: real] = length [5, - 20 :: real]"
    by simp
  with t have b: "run_updates [0, 10] deflected_particle = run_updates [5, -20] deflected_particle"
    by blast
  show ?thesis
    using d w a b by blast
qed

section \<open>Properties of the airfoil profile\<close>

lemma profile_lengths:
  "length (fst generate_airfoil_profile) = n_points + 1"
  "length (snd generate_airfoil_profile) = n_points + 1"
  by (simp_all add: generate_airfoil_profile_def)

lemma profile_nth:
  "i \<le> n_points \<Longrightarrow> fst generate_airfoil_profile ! i = fst (airfoil_point i)"
  "i \<le> n_points \<Longrightarrow> snd generate_airfoil_profile ! i = snd (airfoil_point i)"
  by (simp_all add: generate_airfoil_profile_def nth_map_upt del: upt_Suc)

lemma leading_edge:
  "airfoil_point 0 = ((- AIRFOIL_LENGTH / 2, 0), (- AIRFOIL_LENGTH / 2, 0))"
  by (simp add: airfoil_point_def Let_def camber_position_def AIRFOIL_LENGTH_def)

lemma trailing_thickness:
  "thickness_ratio * (0.2969 * sqrt 1 - 0.1260 * 1 - 0.3516 * 1\<^sup>2 + 0.2843 * 1 ^ 3 - 0.1015 * 1 ^ 4)
     = (0.000252 :: real)"
  by (simp add: thickness_ratio_def)

lemma trailing_edge_x:
  "fst (fst (airfoil_point n_points))
     = (1 - 0.000252 * sin (arctan (2 * camber_ratio / (1 - camber_position)\<^sup>2
                                      * (camber_position - 1))) - 0.5) * AIRFOIL_LENGTH"
  "fst (snd (airfoil_point n_points))
     = (1 + 0.000252 * sin (arctan (2 * camber_ratio / (1 - camber_position)\<^sup>2
                                      * (camber_position - 1))) - 0.5) * AIRFOIL_LENGTH"
proof -
  have x1: "real n_points / real n_points = 1" by (simp add: n_points_def)
  have cp: "\<not> (1::real) < camber_position" by (simp add: camber_position_def)
  show "fst (fst (airfoil_point n_points))
     = (1 - 0.000252 * sin (arctan (2 * camber_ratio / (1 - camber_position)\<^sup>2
                                      * (camber_position - 1))) - 0.5) * AIRFOIL_LENGTH"
    unfolding airfoil_point_def Let_def x1 using cp trailing_thickness by simp
  show "fst (snd (airfoil_point n_points))
     = (1 + 0.000252 * sin (arctan (2 * camber_ratio / (1 - camber_position)\<^sup>2
                                      * (camber_position - 1))) - 0.5) * AIRFOIL_LENGTH"
    unfolding airfoil_point_def Let_def x1 using cp trailing_thickness by simp
qed

lemma trailing_edge_close:
  "\<bar>fst (fst (airfoil_point n_points)) - AIRFOIL_LENGTH / 2\<bar> \<le> 0.00126"
  "\<bar>fst (snd (airfoil_point n_points)) - AIRFOIL_LENGTH / 2\<bar> \<le> 0.00126"
proof -
  define t where
    "t = sin (arctan (2 * camber_ratio / (1 - camber_position)\<^sup>2 * (camber_position - 1)))"
  have t: "\<bar>t\<bar> \<le> 1" unfolding t_def by (rule abs_sin_le_one)
  have u: "fst (fst (airfoil_point n_points)) - AIRFOIL_LENGTH / 2 = - 0.00126 * t"
    unfolding trailing_edge_x t_def [symmetric] by (simp add: AIRFOIL_LENGTH_def algebra_simps)
  have l: "fst (snd (airfoil_point n_points)) - AIRFOIL_LENGTH / 2 = 0.00126 * t"
    unfolding trailing_edge_x t_def [symmetric] by (simp add: AIRFOIL_LENGTH_def algebra_simps)
  have "\<bar>0.00126 * t\<bar> \<le> 0.00126 * 1"
    unfolding abs_mult using t by (intro mult_mono) auto
  then show "\<bar>fst (fst (airfoil_point n_points)) - AIRFOIL_LENGTH / 2\<bar> \<le> 0.00126"
    and "\<bar>fst (snd (airfoil_point n_points)) - AIRFOIL_LENGTH / 2\<bar> \<le> 0.00126"
    unfolding u l by simp_all
qed

text \<open>
  C5. \<open>generate_airfoil_profile\<close> returns two point sequences of
  \<open>n_points + 1 = 21\<close> points each, indexed from the leading edge. The first
  point of both has \<open>x\<close> equal to \<open>-AIRFOIL_LENGTH/2 = -2.5\<close>; the last point of
  both (index \<open>n_points\<close>) has \<open>x\<close> within 0.00126 of \<open>AIRFOIL_LENGTH/2 = 2.5\<close>.
\<close>

theorem airfoil_profile_shape:
  "length (fst generate_airfoil_profile) = n_points + 1
   \<and> length (snd generate_airfoil_profile) = n_points + 1
   \<and> n_points + 1 = 21
   \<and> fst (fst generate_airfoil_profile ! 0) = - AIRFOIL_LENGTH / 2
   \<and> fst (snd generate_airfoil_profile ! 0) = - AIRFOIL_LENGTH / 2
   \<and> \<bar>fst (fst generate_airfoil_profile ! n_points) - AIRFOIL_LENGTH / 2\<bar> \<le> 0.00126
   \<and> \<bar>fst (snd generate_airfoil_profile ! n_points) - AIRFOIL_LENGTH / 2\<bar> \<le> 0.00126
   \<and> AIRFOIL_LENGTH / 2 = 2.5"
proof -
  have "n_points + 1 = 21" by (simp add: n_points_def)
  moreover have "AIRFOIL_LENGTH / 2 = 2.5" by (simp add: AIRFOIL_LENGTH_def)
  moreover have "fst (fst generate_airfoil_profile ! 0) = - AIRFOIL_LENGTH / 2"
    and "fst (snd generate_airfoil_profile ! 0) = - AIRFOIL_LENGTH / 2"
    by (simp_all add: profile_nth leading_edge)
  moreover have
    "\<bar>fst (fst generate_airfoil_profile ! n_points) - AIRFOIL_LENGTH / 2\<bar> \<le> 0.00126"
    "\<bar>fst (snd generate_airfoil_profile ! n_points) - AIRFOIL_LENGTH / 2\<bar> \<le> 0.00126"
    using trailing_edge_close by (simp_all add: profile_nth)
  ultimately show ?thesis
    using profile_lengths by blast
qed

end
